theory Spec2Isabelle
  imports Main
begin

section \<open>SharedDecoderManager.cpp: one decoder shared by several proxies\<close>

text \<open>
  The manager owns one platform decoder and hands it to one proxy at a time. The model
  is sequential: every method of the manager and of the proxy is a function from the
  manager's state to an outcome. What the decoder and the factory answer is not part of
  the program, so each method takes those answers as arguments. The monitor guards only
  \<open>mWaitForInternalDrain\<close>; the lock itself has no counterpart here, the wait on it has.
\<close>

subsection \<open>Values exchanged with the decoder and its callback\<close>

datatype nsresult = NS_OK | NS_ERROR nat

definition NS_SUCCEEDED :: "nsresult \<Rightarrow> bool" where
  "NS_SUCCEEDED rv = (case rv of NS_OK \<Rightarrow> True | NS_ERROR c \<Rightarrow> False)"

text \<open>
  Modelled from the spec: \<open>TrackInfo::TrackType\<close> and
  \<open>MediaDataDecoder::DecoderFailureReason\<close> are declared outside the source file; the
  source names \<open>kVideoTrack\<close> only. An init future carries a track type or a failure
  reason.
\<close>

datatype TrackType = kUndefinedTrack | kAudioTrack | kVideoTrack | kTextTrack

datatype DecoderFailureReason = INIT_ERROR | CANCELED

text \<open>The five events of \<open>MediaDataDecoderCallback\<close>; \<open>EvOutput\<close> carries the data pointer.\<close>

datatype event =
    EvOutput nat
  | EvError
  | EvInputExhausted
  | EvDrainComplete
  | EvReleaseMediaResources

text \<open>What the manager asks of a decoder instance; \<open>ReqInput\<close> carries the sample.\<close>

datatype request =
    ReqInit
  | ReqInput nat
  | ReqFlush
  | ReqDrain
  | ReqShutdown
  | ReqIsHardwareAccelerated

text \<open>
  A proxy is its address and the sink it was constructed with (\<open>mCallback\<close> never
  changes); \<open>mManager\<close> is the one manager of the model. Two proxies are the same
  pointer when the records are equal.
\<close>

record SharedDecoderProxy =
  this_ptr :: nat
  mCallback :: nat

text \<open>
  Modelled from the spec: \<open>MediaPromise\<close>, \<open>MediaPromiseHolder\<close> and
  \<open>MediaPromiseRequestHolder\<close> are declared outside the source file. A future is
  pending until it is resolved or rejected, once; the holder keeps at most one pending
  future and forgets it when it settles it; a disconnected request never runs its
  continuations.
\<close>

datatype InitPromise = Pending | Resolved TrackType | Rejected DecoderFailureReason

text \<open>
  The history of what left the manager, oldest first: requests to a decoder instance,
  events delivered to a sink, calls of the factory (module, configuration, layers
  backend, image container), writes of \<open>mActiveProxy\<close>, and the shutdown of the task
  queue.
\<close>

datatype act =
    Request nat request
  | Deliver nat event
  | CreateDecoder nat nat nat nat
  | SetActiveProxy "SharedDecoderProxy option"
  | TaskQueueShutdown

record SharedDecoderManager =
  mDecoder :: "nat option"
  mPDM :: "nat option"
  mLayersBackend :: nat
  mImageContainer :: nat
  mTaskQueue :: bool
  mActiveProxy :: "SharedDecoderProxy option"
  mActiveCallback :: "nat option"
  mInit :: bool
  mWaitForInternalDrain :: bool
  mDecoderInitPromise :: "nat option"
  mDecoderInitPromiseRequest :: bool
  mDecoderReleasedResources :: bool
  promises :: "InitPromise list"
  trace :: "act list"

text \<open>
  A method returns, or it stops: on a null pointer, on a failed assertion of a debug
  build, or in a wait that nothing ends. The state at the stop is kept.
\<close>

datatype stop = NullDeref | WaitsForever | AssertionFailed

datatype 'a outcome =
    Returns 'a SharedDecoderManager
  | Stops stop SharedDecoderManager

fun and_then :: "'a outcome \<Rightarrow> ('a \<Rightarrow> SharedDecoderManager \<Rightarrow> 'b outcome) \<Rightarrow> 'b outcome" where
  "and_then (Returns r s) f = f r s"
| "and_then (Stops x s) f = Stops x s"

fun state_of :: "'a outcome \<Rightarrow> SharedDecoderManager" where
  "state_of (Returns r s) = s"
| "state_of (Stops x s) = s"

fun returns :: "'a outcome \<Rightarrow> bool" where
  "returns (Returns r s) = True"
| "returns (Stops x s) = False"

definition emit :: "act \<Rightarrow> SharedDecoderManager \<Rightarrow> SharedDecoderManager" where
  "emit a s = s\<lparr>trace := trace s @ [a]\<rparr>"

text \<open>The requests in a history, and the events a given sink received in it.\<close>

fun requests :: "act list \<Rightarrow> (nat \<times> request) list" where
  "requests [] = []"
| "requests (Request d r # as) = (d, r) # requests as"
| "requests (a # as) = requests as"

fun delivered :: "nat \<Rightarrow> act list \<Rightarrow> event list" where
  "delivered cb [] = []"
| "delivered cb (Deliver c e # as) = (if c = cb then e # delivered cb as else delivered cb as)"
| "delivered cb (a # as) = delivered cb as"

text \<open>
  The constructor. \<open>mLayersBackend\<close> is not initialised by it, so its first value is an
  argument; the null image container is 0.
\<close>

definition SharedDecoderManager_ctor :: "nat \<Rightarrow> SharedDecoderManager" where
  "SharedDecoderManager_ctor lb =
     \<lparr>mDecoder = None, mPDM = None, mLayersBackend = lb, mImageContainer = 0,
      mTaskQueue = True, mActiveProxy = None, mActiveCallback = None, mInit = False,
      mWaitForInternalDrain = False, mDecoderInitPromise = None,
      mDecoderInitPromiseRequest = False, mDecoderReleasedResources = False,
      promises = [], trace = []\<rparr>"

subsection \<open>The callback registered with the decoder\<close>

definition DrainComplete :: "SharedDecoderManager \<Rightarrow> unit outcome" where
  "DrainComplete s =
     (if mWaitForInternalDrain s then Returns () (s\<lparr>mWaitForInternalDrain := False\<rparr>)
      else case mActiveCallback s of
             None \<Rightarrow> Stops NullDeref s
           | Some cb \<Rightarrow> Returns () (emit (Deliver cb EvDrainComplete) s))"

fun SharedDecoderCallback :: "event \<Rightarrow> SharedDecoderManager \<Rightarrow> unit outcome" where
  "SharedDecoderCallback (EvOutput aData) s =
     (case mActiveCallback s of
        None \<Rightarrow> Returns () s
      | Some cb \<Rightarrow> Returns () (emit (Deliver cb (EvOutput aData)) s))"
| "SharedDecoderCallback EvError s =
     (case mActiveCallback s of
        None \<Rightarrow> Returns () s
      | Some cb \<Rightarrow> Returns () (emit (Deliver cb EvError) s))"
| "SharedDecoderCallback EvInputExhausted s =
     (case mActiveCallback s of
        None \<Rightarrow> Returns () s
      | Some cb \<Rightarrow> Returns () (emit (Deliver cb EvInputExhausted) s))"
| "SharedDecoderCallback EvDrainComplete s =
     (case mActiveCallback s of
        None \<Rightarrow> Returns () s
      | Some cb \<Rightarrow> DrainComplete s)"
| "SharedDecoderCallback EvReleaseMediaResources s =
     (case mActiveCallback s of
        None \<Rightarrow> Returns () s
      | Some cb \<Rightarrow> Returns () (emit (Deliver cb EvReleaseMediaResources) s))"

text \<open>Events the decoder raises, one after the other, before one of its methods returns.\<close>

fun raise_events :: "event list \<Rightarrow> SharedDecoderManager \<Rightarrow> unit outcome" where
  "raise_events [] s = Returns () s"
| "raise_events (e # es) s = and_then (SharedDecoderCallback e s) (\<lambda>_. raise_events es)"

subsection \<open>Calls into the decoder instance\<close>

text \<open>
  Every call goes through \<open>mDecoder\<close>, which is null after \<open>Shutdown\<close> and after a failed
  \<open>Recreate\<close>. \<open>Drain\<close> may raise events before it returns (the source's comment: some
  platform implementations call \<open>DrainComplete\<close> immediately); its status and those
  events are what the decoder answers.
\<close>

definition decoder_call :: "request \<Rightarrow> 'a \<Rightarrow> SharedDecoderManager \<Rightarrow> 'a outcome" where
  "decoder_call r answer s =
     (case mDecoder s of
        None \<Rightarrow> Stops NullDeref s
      | Some d \<Rightarrow> Returns answer (emit (Request d r) s))"

definition decoder_Drain :: "nsresult \<Rightarrow> event list \<Rightarrow> SharedDecoderManager \<Rightarrow> nsresult outcome" where
  "decoder_Drain rv evs s =
     and_then (decoder_call ReqDrain () s)
       (\<lambda>_ s1. and_then (raise_events evs s1) (\<lambda>_ s2. Returns rv s2))"

subsection \<open>The proxy's forwarding methods\<close>

definition SharedDecoderProxy_Flush ::
  "SharedDecoderProxy \<Rightarrow> nsresult \<Rightarrow> SharedDecoderManager \<Rightarrow> nsresult outcome" where
  "SharedDecoderProxy_Flush this rv s =
     (if mActiveProxy s = Some this then decoder_call ReqFlush rv s
      else Returns NS_OK s)"

definition SharedDecoderProxy_Drain ::
  "SharedDecoderProxy \<Rightarrow> nsresult \<Rightarrow> event list \<Rightarrow> SharedDecoderManager \<Rightarrow> nsresult outcome" where
  "SharedDecoderProxy_Drain this rv evs s =
     (if mActiveProxy s = Some this then decoder_Drain rv evs s
      else Returns NS_OK (emit (Deliver (mCallback this) EvDrainComplete) s))"

definition SharedDecoderProxy_IsHardwareAccelerated ::
  "SharedDecoderProxy \<Rightarrow> bool \<Rightarrow> SharedDecoderManager \<Rightarrow> bool outcome" where
  "SharedDecoderProxy_IsHardwareAccelerated this answer s =
     decoder_call ReqIsHardwareAccelerated answer s"

subsection \<open>Hand-off\<close>

text \<open>
  The answers of the decoder during one hand-off: the status of the drain and the
  events raised inside it, the events it raises from its own thread while the manager
  waits, and the status of the flush.
\<close>

record hand_off =
  drain_rv :: nsresult
  drain_events :: "event list"
  wait_events :: "event list"
  flush_rv :: nsresult

text \<open>
  \<open>while (mWaitForInternalDrain) mon.Wait()\<close>: the manager sleeps and the decoder's
  events run one by one until one of them clears the flag; events after that one are
  not part of the wait. When the events run out with the flag set, the wait has no end.
\<close>

fun wait_internal_drain :: "event list \<Rightarrow> SharedDecoderManager \<Rightarrow> unit outcome" where
  "wait_internal_drain [] s =
     (if mWaitForInternalDrain s then Stops WaitsForever s else Returns () s)"
| "wait_internal_drain (e # es) s =
     (if mWaitForInternalDrain s
      then and_then (SharedDecoderCallback e s) (\<lambda>_. wait_internal_drain es)
      else Returns () s)"

definition SetIdle ::
  "SharedDecoderProxy option \<Rightarrow> hand_off \<Rightarrow> SharedDecoderManager \<Rightarrow> unit outcome" where
  "SetIdle aProxy h s =
     (if aProxy \<noteq> None \<and> mActiveProxy s = aProxy then
        and_then
          (case mActiveProxy s of
             None \<Rightarrow> Stops NullDeref s
           | Some a \<Rightarrow>
               SharedDecoderProxy_Drain a (drain_rv h) (drain_events h)
                 (s\<lparr>mWaitForInternalDrain := True\<rparr>))
          (\<lambda>rv s1.
             and_then
               (if NS_SUCCEEDED rv then wait_internal_drain (wait_events h) s1
                else Returns () s1)
               (\<lambda>_ s2.
                  and_then
                    (case mActiveProxy s2 of
                       None \<Rightarrow> Stops NullDeref s2
                     | Some a \<Rightarrow> SharedDecoderProxy_Flush a (flush_rv h) s2)
                    (\<lambda>_ s3. Returns () (emit (SetActiveProxy None) (s3\<lparr>mActiveProxy := None\<rparr>)))))
      else Returns () s)"

definition Select ::
  "SharedDecoderProxy \<Rightarrow> hand_off \<Rightarrow> SharedDecoderManager \<Rightarrow> unit outcome" where
  "Select aProxy h s =
     (if mActiveProxy s = Some aProxy then Returns () s
      else and_then (SetIdle (mActiveProxy s) h s)
             (\<lambda>_ s1. Returns ()
                (emit (SetActiveProxy (Some aProxy))
                   (s1\<lparr>mActiveProxy := Some aProxy,
                       mActiveCallback := Some (mCallback aProxy)\<rparr>))))"

subsection \<open>Creation, recreation and shutdown\<close>

text \<open>
  \<open>created\<close> is what the factory returns (null when it fails) and \<open>addr\<close> the address of
  the new proxy. \<open>aVideoTaskQueue\<close> is not used: the decoder runs on the manager's queue.
\<close>

definition CreateVideoDecoder ::
  "nat \<Rightarrow> nat \<Rightarrow> nat \<Rightarrow> nat \<Rightarrow> nat \<Rightarrow> nat \<Rightarrow> nat option \<Rightarrow> nat \<Rightarrow> SharedDecoderManager
     \<Rightarrow> SharedDecoderProxy option outcome" where
  "CreateVideoDecoder aPDM aConfig aLayersBackend aImageContainer aVideoTaskQueue aCallback
       created addr s =
     (if mDecoder s = None then
        (let s1 = emit (CreateDecoder aPDM aConfig aLayersBackend aImageContainer)
                    (s\<lparr>mLayersBackend := aLayersBackend, mImageContainer := aImageContainer\<rparr>);
             s2 = s1\<lparr>mDecoder := created\<rparr>
         in if mDecoder s2 = None then Returns None (s2\<lparr>mPDM := None\<rparr>)
            else Returns (Some \<lparr>this_ptr = addr, mCallback = aCallback\<rparr>)
                   (s2\<lparr>mPDM := Some aPDM\<rparr>))
      else Returns (Some \<lparr>this_ptr = addr, mCallback = aCallback\<rparr>) s)"

definition Recreate :: "nat \<Rightarrow> nat option \<Rightarrow> SharedDecoderManager \<Rightarrow> bool outcome" where
  "Recreate aConfig created s =
     and_then (decoder_call ReqFlush () s)
       (\<lambda>_ s1. and_then (decoder_call ReqShutdown () s1)
          (\<lambda>_ s2.
             case mPDM s2 of
               None \<Rightarrow> Stops NullDeref s2
             | Some pdm \<Rightarrow>
                 (let s3 = (emit (CreateDecoder pdm aConfig (mLayersBackend s2) (mImageContainer s2)) s2)
                             \<lparr>mDecoder := created\<rparr>
                  in if mDecoder s3 = None then Returns False s3
                     else Returns True (s3\<lparr>mInit := False\<rparr>))))"

definition Shutdown :: "SharedDecoderManager \<Rightarrow> unit outcome" where
  "Shutdown s =
     (let s1 = (case mDecoder s of
                  None \<Rightarrow> s
                | Some d \<Rightarrow> (emit (Request d ReqShutdown) s)\<lparr>mDecoder := None\<rparr>);
          s2 = s1\<lparr>mPDM := None\<rparr>;
          s3 = (if mTaskQueue s2 then (emit TaskQueueShutdown s2)\<lparr>mTaskQueue := False\<rparr> else s2)
      in Returns () (s3\<lparr>mDecoderInitPromiseRequest := False\<rparr>))"

subsection \<open>Shared initialisation\<close>

definition Ensure :: "SharedDecoderManager \<Rightarrow> nat \<times> SharedDecoderManager" where
  "Ensure s =
     (case mDecoderInitPromise s of
        Some p \<Rightarrow> (p, s)
      | None \<Rightarrow> (length (promises s),
                 s\<lparr>promises := promises s @ [Pending],
                   mDecoderInitPromise := Some (length (promises s))\<rparr>))"

definition settle_if_exists :: "InitPromise \<Rightarrow> SharedDecoderManager \<Rightarrow> SharedDecoderManager" where
  "settle_if_exists v s =
     (case mDecoderInitPromise s of
        None \<Rightarrow> s
      | Some p \<Rightarrow> s\<lparr>promises := (promises s)[p := v], mDecoderInitPromise := None\<rparr>)"

definition CreateAndResolve :: "TrackType \<Rightarrow> SharedDecoderManager \<Rightarrow> nat outcome" where
  "CreateAndResolve t s = Returns (length (promises s)) (s\<lparr>promises := promises s @ [Resolved t]\<rparr>)"

text \<open>
  \<open>InitDecoder\<close> returns the address of a future. \<open>debug\<close> says whether \<open>MOZ_ASSERT\<close> is
  compiled in: \<open>OnReaderTaskQueue\<close> asserts that \<open>mActiveCallback\<close> is set; what the
  sink answers about its thread is outside the model and taken to be true.
\<close>

definition InitDecoder :: "bool \<Rightarrow> SharedDecoderManager \<Rightarrow> nat outcome" where
  "InitDecoder debug s =
     (if \<not> mInit s \<and> mDecoder s \<noteq> None then
        (if debug \<and> mActiveCallback s = None then Stops AssertionFailed s
         else (let (p, s1) = Ensure s
               in and_then (decoder_call ReqInit () s1)
                    (\<lambda>_ s2. Returns p (s2\<lparr>mDecoderInitPromiseRequest := True\<rparr>))))
      else CreateAndResolve kVideoTrack s)"

text \<open>
  The two continuations given to \<open>Then\<close>, and the moment the decoder's own init future
  settles: the continuation for the result runs unless the request was disconnected.
  The holder keeps one request, so this describes one init in flight at a time; a second
  \<open>InitDecoder\<close> before the first has settled is the caller's ordering error and its
  second settlement is not represented.
\<close>

definition on_init_resolved :: "TrackType \<Rightarrow> SharedDecoderManager \<Rightarrow> SharedDecoderManager" where
  "on_init_resolved aType s =
     settle_if_exists (Resolved aType) (s\<lparr>mDecoderInitPromiseRequest := False, mInit := True\<rparr>)"

definition on_init_rejected :: "DecoderFailureReason \<Rightarrow> SharedDecoderManager \<Rightarrow> SharedDecoderManager" where
  "on_init_rejected aReason s =
     settle_if_exists (Rejected aReason) (s\<lparr>mDecoderInitPromiseRequest := False\<rparr>)"

definition init_settles ::
  "DecoderFailureReason + TrackType \<Rightarrow> SharedDecoderManager \<Rightarrow> SharedDecoderManager" where
  "init_settles r s =
     (if mDecoderInitPromiseRequest s
      then (case r of Inl aReason \<Rightarrow> on_init_rejected aReason s
                    | Inr aType \<Rightarrow> on_init_resolved aType s)
      else s)"

subsection \<open>The proxy's remaining methods\<close>

definition SharedDecoderProxy_Init ::
  "SharedDecoderProxy \<Rightarrow> bool \<Rightarrow> hand_off \<Rightarrow> SharedDecoderManager \<Rightarrow> nat outcome" where
  "SharedDecoderProxy_Init this debug h s =
     and_then (if mActiveProxy s \<noteq> Some this then Select this h s else Returns () s)
       (\<lambda>_. InitDecoder debug)"

definition SharedDecoderProxy_Input ::
  "SharedDecoderProxy \<Rightarrow> nat \<Rightarrow> hand_off \<Rightarrow> nsresult \<Rightarrow> SharedDecoderManager \<Rightarrow> nsresult outcome" where
  "SharedDecoderProxy_Input this aSample h rv s =
     and_then (if mActiveProxy s \<noteq> Some this then Select this h s else Returns () s)
       (\<lambda>_. decoder_call (ReqInput aSample) rv)"

definition SharedDecoderProxy_Shutdown ::
  "SharedDecoderProxy \<Rightarrow> hand_off \<Rightarrow> SharedDecoderManager \<Rightarrow> nsresult outcome" where
  "SharedDecoderProxy_Shutdown this h s =
     and_then (SetIdle (Some this) h s) (\<lambda>_ s1. Returns NS_OK s1)"

definition SharedDecoderProxy_dtor ::
  "SharedDecoderProxy \<Rightarrow> hand_off \<Rightarrow> SharedDecoderManager \<Rightarrow> unit outcome" where
  "SharedDecoderProxy_dtor this h s =
     and_then (SharedDecoderProxy_Shutdown this h s) (\<lambda>_ s1. Returns () s1)"

subsection \<open>Runs of initialisation\<close>

text \<open>
  One call of \<open>InitDecoder\<close> whose result is known before anything else happens: if the
  call started a real init, the decoder's init future settles with \<open>r\<close>; a call that
  started none leaves no request for \<open>r\<close> to answer. \<open>init_calls\<close> is a sequence of such
  calls and returns the futures in the order of the calls.
\<close>

definition InitDecoder_round ::
  "bool \<Rightarrow> DecoderFailureReason + TrackType \<Rightarrow> SharedDecoderManager \<Rightarrow> nat outcome" where
  "InitDecoder_round debug r s =
     and_then (InitDecoder debug s) (\<lambda>p s1. Returns p (init_settles r s1))"

fun init_calls ::
  "bool \<Rightarrow> (DecoderFailureReason + TrackType) list \<Rightarrow> SharedDecoderManager \<Rightarrow> nat list outcome" where
  "init_calls debug [] s = Returns [] s"
| "init_calls debug (r # rs) s =
     and_then (InitDecoder_round debug r s)
       (\<lambda>p s1. and_then (init_calls debug rs s1) (\<lambda>ps s2. Returns (p # ps) s2))"

text \<open>What the futures of such a run hold at its end, as the source settles them.\<close>

fun init_results :: "(DecoderFailureReason + TrackType) list \<Rightarrow> InitPromise list" where
  "init_results [] = []"
| "init_results (Inl aReason # rs) = Rejected aReason # init_results rs"
| "init_results (Inr aType # rs) = Resolved aType # replicate (length rs) (Resolved kVideoTrack)"

text \<open>No init is in flight: the holder is empty and no request is outstanding.\<close>

definition init_idle :: "SharedDecoderManager \<Rightarrow> bool" where
  "init_idle s = (mDecoderInitPromise s = None \<and> \<not> mDecoderInitPromiseRequest s)"

subsection \<open>Operations and the states they reach\<close>

datatype op =
    Op_CreateVideoDecoder nat nat nat nat nat nat "nat option" nat
  | Op_Recreate nat "nat option"
  | Op_Select SharedDecoderProxy hand_off
  | Op_SetIdle "SharedDecoderProxy option" hand_off
  | Op_InitDecoder bool
  | Op_init_settles "DecoderFailureReason + TrackType"
  | Op_DrainComplete
  | Op_SharedDecoderCallback event
  | Op_Shutdown
  | Op_Proxy_Init SharedDecoderProxy bool hand_off
  | Op_Proxy_Input SharedDecoderProxy nat hand_off nsresult
  | Op_Proxy_Flush SharedDecoderProxy nsresult
  | Op_Proxy_Drain SharedDecoderProxy nsresult "event list"
  | Op_Proxy_Shutdown SharedDecoderProxy hand_off
  | Op_Proxy_IsHardwareAccelerated SharedDecoderProxy bool
  | Op_Proxy_dtor SharedDecoderProxy hand_off

text \<open>The state an operation leaves behind, whether it returns or stops.\<close>

fun exec :: "op \<Rightarrow> SharedDecoderManager \<Rightarrow> SharedDecoderManager" where
  "exec (Op_CreateVideoDecoder aPDM aConfig aLayersBackend aImageContainer aQueue aCallback created addr) s =
     state_of (CreateVideoDecoder aPDM aConfig aLayersBackend aImageContainer aQueue aCallback created addr s)"
| "exec (Op_Recreate aConfig created) s = state_of (Recreate aConfig created s)"
| "exec (Op_Select aProxy h) s = state_of (Select aProxy h s)"
| "exec (Op_SetIdle aProxy h) s = state_of (SetIdle aProxy h s)"
| "exec (Op_InitDecoder debug) s = state_of (InitDecoder debug s)"
| "exec (Op_init_settles r) s = init_settles r s"
| "exec Op_DrainComplete s = state_of (DrainComplete s)"
| "exec (Op_SharedDecoderCallback e) s = state_of (SharedDecoderCallback e s)"
| "exec Op_Shutdown s = state_of (Shutdown s)"
| "exec (Op_Proxy_Init this debug h) s = state_of (SharedDecoderProxy_Init this debug h s)"
| "exec (Op_Proxy_Input this aSample h rv) s = state_of (SharedDecoderProxy_Input this aSample h rv s)"
| "exec (Op_Proxy_Flush this rv) s = state_of (SharedDecoderProxy_Flush this rv s)"
| "exec (Op_Proxy_Drain this rv evs) s = state_of (SharedDecoderProxy_Drain this rv evs s)"
| "exec (Op_Proxy_Shutdown this h) s = state_of (SharedDecoderProxy_Shutdown this h s)"
| "exec (Op_Proxy_IsHardwareAccelerated this answer) s =
     state_of (SharedDecoderProxy_IsHardwareAccelerated this answer s)"
| "exec (Op_Proxy_dtor this h) s = state_of (SharedDecoderProxy_dtor this h s)"

fun is_Recreate :: "op \<Rightarrow> bool" where
  "is_Recreate (Op_Recreate aConfig created) = True"
| "is_Recreate other = False"

fun run :: "op list \<Rightarrow> SharedDecoderManager \<Rightarrow> SharedDecoderManager" where
  "run [] s = s"
| "run (x # xs) s = run xs (exec x s)"

text \<open>
  Two facts that the constructor establishes and every operation keeps: the forwarding
  target is the sink of the active proxy whenever there is one, and a manager that
  holds a decoder still knows the factory that made it.
\<close>

definition manager_ok :: "SharedDecoderManager \<Rightarrow> bool" where
  "manager_ok s =
     ((case mActiveProxy s of
         None \<Rightarrow> True
       | Some a \<Rightarrow> mActiveCallback s = Some (mCallback a)) \<and>
      (mDecoder s = None \<or> mPDM s \<noteq> None))"

text \<open>
  What the hand-off and the forwarding methods leave alone: \<open>mInit\<close>, the decoder, the
  factory and the forwarding target stay, and the active proxy stays or is cleared.
\<close>

definition keeps_core :: "SharedDecoderManager \<Rightarrow> SharedDecoderManager \<Rightarrow> bool" where
  "keeps_core s s' =
     (mInit s' = mInit s \<and> mDecoder s' = mDecoder s \<and> mPDM s' = mPDM s \<and>
      mActiveCallback s' = mActiveCallback s \<and>
      (mActiveProxy s' = mActiveProxy s \<or> mActiveProxy s' = None))"

subsection \<open>What a hand-off forwards\<close>

text \<open>
  The drain of a hand-off is acknowledged when the decoder raises a drain-complete event
  inside the drain call or while the manager waits. \<open>forwarded\<close> lists the events of an
  acknowledged hand-off other than the acknowledgement itself, in the order the decoder
  raised them: all events of the drain call but its first drain-complete, or else the
  events of the drain call and those of the wait before the first drain-complete.
\<close>

definition acknowledged :: "hand_off \<Rightarrow> bool" where
  "acknowledged h =
     (EvDrainComplete \<in> set (drain_events h) \<or> EvDrainComplete \<in> set (wait_events h))"

definition forwarded :: "hand_off \<Rightarrow> event list" where
  "forwarded h =
     (if EvDrainComplete \<in> set (drain_events h) then remove1 EvDrainComplete (drain_events h)
      else drain_events h @ takeWhile (\<lambda>e. e \<noteq> EvDrainComplete) (wait_events h))"

subsection \<open>Example states\<close>

definition proxy_A :: SharedDecoderProxy where
  "proxy_A = \<lparr>this_ptr = 100, mCallback = 10\<rparr>"

definition proxy_B :: SharedDecoderProxy where
  "proxy_B = \<lparr>this_ptr = 200, mCallback = 11\<rparr>"

text \<open>
  A decoder that acknowledges the drain inside the call, one that acknowledges it later
  after one more frame, one whose drain fails, and one that accepts the drain and never
  answers.
\<close>

definition prompt_hand_off :: hand_off where
  "prompt_hand_off =
     \<lparr>drain_rv = NS_OK, drain_events = [EvDrainComplete], wait_events = [], flush_rv = NS_OK\<rparr>"

definition late_hand_off :: hand_off where
  "late_hand_off =
     \<lparr>drain_rv = NS_OK, drain_events = [], wait_events = [EvOutput 7, EvDrainComplete],
      flush_rv = NS_OK\<rparr>"

definition failed_hand_off :: hand_off where
  "failed_hand_off =
     \<lparr>drain_rv = NS_ERROR 1, drain_events = [], wait_events = [], flush_rv = NS_OK\<rparr>"

definition silent_hand_off :: hand_off where
  "silent_hand_off =
     \<lparr>drain_rv = NS_OK, drain_events = [], wait_events = [], flush_rv = NS_OK\<rparr>"


text \<open>
  The manager after the first \<open>CreateVideoDecoder\<close> (factory 1, configuration 2, decoder
  instance 20), and after proxy A has then been selected.
\<close>

definition created_state :: SharedDecoderManager where
  "created_state =
     \<lparr>mDecoder = Some 20, mPDM = Some 1, mLayersBackend = 3, mImageContainer = 4,
      mTaskQueue = True, mActiveProxy = None, mActiveCallback = None, mInit = False,
      mWaitForInternalDrain = False, mDecoderInitPromise = None,
      mDecoderInitPromiseRequest = False, mDecoderReleasedResources = False,
      promises = [], trace = [CreateDecoder 1 2 3 4]\<rparr>"

definition active_A_state :: SharedDecoderManager where
  "active_A_state =
     created_state\<lparr>mActiveProxy := Some proxy_A, mActiveCallback := Some 10,
                   trace := [CreateDecoder 1 2 3 4, SetActiveProxy (Some proxy_A)]\<rparr>"

text \<open>The manager after proxy A's first init has succeeded with the video track type.\<close>

definition initialised_state :: SharedDecoderManager where
  "initialised_state =
     active_A_state\<lparr>mInit := True, promises := [Resolved kVideoTrack],
                    trace := [CreateDecoder 1 2 3 4, SetActiveProxy (Some proxy_A),
                              Request 20 ReqInit]\<rparr>"

section \<open>Properties\<close>

subsection \<open>The example states are reached by the program\<close>

lemma created_state_reached:
  "CreateVideoDecoder 1 2 3 4 5 10 (Some 20) 100 (SharedDecoderManager_ctor 0) =
     Returns (Some proxy_A) created_state"
  by (simp add: CreateVideoDecoder_def SharedDecoderManager_ctor_def emit_def Let_def
        proxy_A_def created_state_def)

lemma active_A_state_reached:
  "Select proxy_A silent_hand_off created_state = Returns () active_A_state"
  by (simp add: Select_def SetIdle_def emit_def created_state_def active_A_state_def proxy_A_def)

lemma initialised_state_reached:
  "init_settles (Inr kVideoTrack) (state_of (InitDecoder True active_A_state)) =
     initialised_state"
  by (simp add: InitDecoder_def Ensure_def decoder_call_def emit_def
        init_settles_def on_init_resolved_def settle_if_exists_def
        initialised_state_def active_A_state_def created_state_def)

subsection \<open>The router and the wait, event by event\<close>

lemma router_forward:
  "mActiveCallback s = Some cb \<Longrightarrow> e \<noteq> EvDrainComplete \<Longrightarrow>
   SharedDecoderCallback e s = Returns () (emit (Deliver cb e) s)"
  by (cases e) simp_all

lemma router_drain_complete:
  "mActiveCallback s = Some cb \<Longrightarrow>
   SharedDecoderCallback EvDrainComplete s =
     (if mWaitForInternalDrain s then Returns () (s\<lparr>mWaitForInternalDrain := False\<rparr>)
      else Returns () (emit (Deliver cb EvDrainComplete) s))"
  by (simp add: DrainComplete_def)

lemma router_no_callback:
  "mActiveCallback s = None \<Longrightarrow> SharedDecoderCallback e s = Returns () s"
  by (cases e) simp_all

lemma raise_events_no_callback:
  "mActiveCallback s = None \<Longrightarrow> raise_events es s = Returns () s"
  by (induction es) (simp_all add: router_no_callback)

lemma raise_events_forward:
  "mActiveCallback s = Some cb \<Longrightarrow> \<not> mWaitForInternalDrain s \<Longrightarrow>
   raise_events es s = Returns () (s\<lparr>trace := trace s @ map (Deliver cb) es\<rparr>)"
proof (induction es arbitrary: s)
  case Nil
  then show ?case by simp
next
  case (Cons e es)
  show ?case
  proof (cases "e = EvDrainComplete")
    case True
    with Cons.prems show ?thesis
      by (simp add: DrainComplete_def emit_def Cons.IH)
  next
    case False
    with Cons.prems show ?thesis
      by (simp add: router_forward emit_def Cons.IH)
  qed
qed

lemma raise_events_pending:
  "mActiveCallback s = Some cb \<Longrightarrow> mWaitForInternalDrain s \<Longrightarrow>
   raise_events es s =
     Returns () (s\<lparr>mWaitForInternalDrain := EvDrainComplete \<notin> set es,
                  trace := trace s @ map (Deliver cb) (remove1 EvDrainComplete es)\<rparr>)"
proof (induction es arbitrary: s)
  case Nil
  then show ?case by simp
next
  case (Cons e es)
  show ?case
  proof (cases "e = EvDrainComplete")
    case True
    with Cons.prems show ?thesis
      by (simp add: DrainComplete_def raise_events_forward)
  next
    case False
    with Cons.prems show ?thesis
      by (simp add: router_forward emit_def Cons.IH)
  qed
qed

lemma wait_not_pending:
  "\<not> mWaitForInternalDrain s \<Longrightarrow> wait_internal_drain es s = Returns () s"
  by (cases es) simp_all

lemma wait_acknowledged:
  "mActiveCallback s = Some cb \<Longrightarrow> mWaitForInternalDrain s \<Longrightarrow> EvDrainComplete \<in> set es \<Longrightarrow>
   wait_internal_drain es s =
     Returns () (s\<lparr>mWaitForInternalDrain := False,
                  trace := trace s @ map (Deliver cb) (takeWhile (\<lambda>e. e \<noteq> EvDrainComplete) es)\<rparr>)"
proof (induction es arbitrary: s)
  case Nil
  then show ?case by simp
next
  case (Cons e es)
  show ?case
  proof (cases "e = EvDrainComplete")
    case True
    with Cons.prems show ?thesis
      by (simp add: DrainComplete_def wait_not_pending)
  next
    case False
    with Cons.prems show ?thesis
      by (simp add: router_forward emit_def Cons.IH)
  qed
qed

lemma wait_never_acknowledged:
  "mActiveCallback s = Some cb \<Longrightarrow> mWaitForInternalDrain s \<Longrightarrow> EvDrainComplete \<notin> set es \<Longrightarrow>
   wait_internal_drain es s =
     Stops WaitsForever (s\<lparr>trace := trace s @ map (Deliver cb) es\<rparr>)"
proof (induction es arbitrary: s)
  case Nil
  then show ?case by simp
next
  case (Cons e es)
  from Cons.prems have ne: "e \<noteq> EvDrainComplete" and rest: "EvDrainComplete \<notin> set es"
    by auto
  with Cons.prems show ?case
    by (simp add: router_forward [OF _ ne] emit_def Cons.IH)
qed

lemma wait_no_callback:
  "mActiveCallback s = None \<Longrightarrow> mWaitForInternalDrain s \<Longrightarrow>
   wait_internal_drain es s = Stops WaitsForever s"
  by (induction es) (simp_all add: router_no_callback)


lemma requests_append: "requests (xs @ ys) = requests xs @ requests ys"
  by (induction xs rule: requests.induct) simp_all

lemma requests_deliveries: "requests (map (Deliver cb) es) = []"
  by (induction es) simp_all

lemma raise_events_frame:
  "\<exists>f ds. raise_events es s =
            Returns () (s\<lparr>mWaitForInternalDrain := f, trace := trace s @ ds\<rparr>) \<and>
          requests ds = []"
proof (cases "mActiveCallback s")
  case None
  have "s = s\<lparr>mWaitForInternalDrain := mWaitForInternalDrain s, trace := trace s @ []\<rparr>"
    by simp
  with None show ?thesis
    by (metis raise_events_no_callback requests.simps(1))
next
  case (Some cb)
  show ?thesis
  proof (cases "mWaitForInternalDrain s")
    case True
    from raise_events_pending [OF Some True] show ?thesis
      using requests_deliveries by blast
  next
    case False
    have "s\<lparr>trace := trace s @ map (Deliver cb) es\<rparr> =
          s\<lparr>mWaitForInternalDrain := mWaitForInternalDrain s,
            trace := trace s @ map (Deliver cb) es\<rparr>"
      by simp
    with raise_events_forward [OF Some False, of es] show ?thesis
      using requests_deliveries by metis
  qed
qed

lemma wait_frame:
  "\<exists>f ds. (wait_internal_drain es s =
             Returns () (s\<lparr>mWaitForInternalDrain := f, trace := trace s @ ds\<rparr>) \<or>
           wait_internal_drain es s =
             Stops WaitsForever (s\<lparr>mWaitForInternalDrain := f, trace := trace s @ ds\<rparr>)) \<and>
          requests ds = []"
proof (cases "mWaitForInternalDrain s")
  case False
  have "s = s\<lparr>mWaitForInternalDrain := mWaitForInternalDrain s, trace := trace s @ []\<rparr>"
    by simp
  with False show ?thesis
    by (metis wait_not_pending requests.simps(1))
next
  case True
  show ?thesis
  proof (cases "mActiveCallback s")
    case None
    have "s = s\<lparr>mWaitForInternalDrain := mWaitForInternalDrain s, trace := trace s @ []\<rparr>"
      by simp
    with None True show ?thesis
      by (metis wait_no_callback requests.simps(1))
  next
    case (Some cb)
    show ?thesis
    proof (cases "EvDrainComplete \<in> set es")
      case True
      from wait_acknowledged [OF Some \<open>mWaitForInternalDrain s\<close> True] show ?thesis
        using requests_deliveries by blast
    next
      case False
      have "s\<lparr>trace := trace s @ map (Deliver cb) es\<rparr> =
            s\<lparr>mWaitForInternalDrain := mWaitForInternalDrain s,
              trace := trace s @ map (Deliver cb) es\<rparr>"
        by simp
      with wait_never_acknowledged [OF Some \<open>mWaitForInternalDrain s\<close> False] show ?thesis
        using requests_deliveries by metis
    qed
  qed
qed

subsection \<open>Drain on a proxy that is not active\<close>

text \<open>
  Claim C7. For every proxy that is not the active one, \<open>Drain\<close> reports success, delivers
  a drain-complete notification to the proxy's own sink at once, and sends no request
  to the shared decoder: the state after the call is the state before it with that one
  delivery added to the history, so the decoder and every field of the manager are as
  they were.
\<close>

theorem inactive_drain_completes_itself:
  "mActiveProxy s \<noteq> Some this \<Longrightarrow>
   SharedDecoderProxy_Drain this rv evs s =
     Returns NS_OK (s\<lparr>trace := trace s @ [Deliver (mCallback this) EvDrainComplete]\<rparr>)"
  by (simp add: SharedDecoderProxy_Drain_def emit_def)

theorem inactive_drain_completes_itself_witness:
  "mActiveProxy active_A_state \<noteq> Some proxy_B \<and>
   SharedDecoderProxy_Drain proxy_B NS_OK [] active_A_state =
     Returns NS_OK (active_A_state\<lparr>trace := trace active_A_state @ [Deliver 11 EvDrainComplete]\<rparr>)"
  using inactive_drain_completes_itself [of active_A_state proxy_B NS_OK "[]"]
  by (simp add: active_A_state_def created_state_def proxy_A_def proxy_B_def)

subsection \<open>A drain that fails during hand-off\<close>

text \<open>
  Claim C6. If the drain request issued inside \<open>SetIdle\<close> reports failure, the hand-off
  does not wait for a drain-complete event: whatever the decoder would raise later,
  \<open>SetIdle\<close> returns, the only requests it sent are the drain and then the flush, and
  the active proxy is cleared right after the flush.
\<close>

theorem failed_drain_skips_wait:
  assumes "mActiveProxy s = Some a" and "mDecoder s = Some d"
    and "\<not> NS_SUCCEEDED (drain_rv h)"
  shows "\<exists>s'. SetIdle (Some a) h s = Returns () s' \<and>
              mActiveProxy s' = None \<and>
              (\<exists>ds. trace s' = trace s @ [Request d ReqDrain] @ ds @
                                [Request d ReqFlush, SetActiveProxy None] \<and> requests ds = [])"
proof -
  let ?s0 = "emit (Request d ReqDrain) (s\<lparr>mWaitForInternalDrain := True\<rparr>)"
  obtain f ds where r: "raise_events (drain_events h) ?s0 =
      Returns () (?s0\<lparr>mWaitForInternalDrain := f, trace := trace ?s0 @ ds\<rparr>)"
    and ds: "requests ds = []"
    using raise_events_frame by blast
  from assms r have "SetIdle (Some a) h s =
      Returns () (s\<lparr>mActiveProxy := None, mWaitForInternalDrain := f,
                   trace := trace s @ [Request d ReqDrain] @ ds @
                            [Request d ReqFlush, SetActiveProxy None]\<rparr>)"
    by (simp add: SetIdle_def SharedDecoderProxy_Drain_def decoder_Drain_def decoder_call_def
          SharedDecoderProxy_Flush_def emit_def)
  with ds show ?thesis by simp
qed

theorem failed_drain_skips_wait_witness:
  "mActiveProxy active_A_state = Some proxy_A \<and> mDecoder active_A_state = Some 20 \<and>
   \<not> NS_SUCCEEDED (drain_rv failed_hand_off) \<and>
   (\<exists>s'. SetIdle (Some proxy_A) failed_hand_off active_A_state = Returns () s' \<and>
         mActiveProxy s' = None \<and>
         (\<exists>ds. trace s' = trace active_A_state @ [Request 20 ReqDrain] @ ds @
                           [Request 20 ReqFlush, SetActiveProxy None] \<and> requests ds = []))"
proof -
  have a: "mActiveProxy active_A_state = Some proxy_A"
    by (simp add: active_A_state_def)
  have d: "mDecoder active_A_state = Some 20"
    by (simp add: active_A_state_def created_state_def)
  have f: "\<not> NS_SUCCEEDED (drain_rv failed_hand_off)"
    by (simp add: failed_hand_off_def NS_SUCCEEDED_def)
  from failed_drain_skips_wait [OF a d f] a d f show ?thesis by blast
qed

subsection \<open>The hand-off, case by case\<close>

lemma SetIdle_not_active:
  "mActiveProxy s \<noteq> p \<or> p = None \<Longrightarrow> SetIdle p h s = Returns () s"
  by (auto simp add: SetIdle_def)

lemma SetIdle_drain_succeeds:
  assumes a: "mActiveProxy s = Some a" and cb: "mActiveCallback s = Some cb"
    and d: "mDecoder s = Some d" and ok: "NS_SUCCEEDED (drain_rv h)"
  shows "SetIdle (Some a) h s =
    (if acknowledged h
     then Returns ()
            (s\<lparr>mActiveProxy := None, mWaitForInternalDrain := False,
               trace := trace s @ [Request d ReqDrain] @ map (Deliver cb) (forwarded h) @
                        [Request d ReqFlush, SetActiveProxy None]\<rparr>)
     else Stops WaitsForever
            (s\<lparr>mWaitForInternalDrain := True,
               trace := trace s @ [Request d ReqDrain] @
                        map (Deliver cb) (drain_events h @ wait_events h)\<rparr>))"
proof -
  let ?s0 = "emit (Request d ReqDrain) (s\<lparr>mWaitForInternalDrain := True\<rparr>)"
  have cb0: "mActiveCallback ?s0 = Some cb" and w0: "mWaitForInternalDrain ?s0"
    using cb by (simp_all add: emit_def)
  note r = raise_events_pending [OF cb0 w0, of "drain_events h"]
  show ?thesis
  proof (cases "EvDrainComplete \<in> set (drain_events h)")
    case True
    with a d ok r show ?thesis
      by (simp add: SetIdle_def SharedDecoderProxy_Drain_def decoder_Drain_def decoder_call_def
            SharedDecoderProxy_Flush_def emit_def wait_not_pending acknowledged_def forwarded_def)
  next
    case False
    let ?s1 = "?s0\<lparr>mWaitForInternalDrain := True,
                    trace := trace ?s0 @ map (Deliver cb) (drain_events h)\<rparr>"
    have cb1: "mActiveCallback ?s1 = Some cb" and w1: "mWaitForInternalDrain ?s1"
      using cb by (simp_all add: emit_def)
    from False have same: "remove1 EvDrainComplete (drain_events h) = drain_events h"
      by (rule remove1_idem)
    show ?thesis
    proof (cases "EvDrainComplete \<in> set (wait_events h)")
      case True
      note w = wait_acknowledged [OF cb1 w1 True]
      from a d ok r False True w same show ?thesis
        by (simp add: SetIdle_def SharedDecoderProxy_Drain_def decoder_Drain_def decoder_call_def
              SharedDecoderProxy_Flush_def emit_def acknowledged_def forwarded_def)
    next
      case nack: False
      note w = wait_never_acknowledged [OF cb1 w1 nack]
      from a d ok r False nack w same show ?thesis
        by (simp add: SetIdle_def SharedDecoderProxy_Drain_def decoder_Drain_def decoder_call_def
              SharedDecoderProxy_Flush_def emit_def acknowledged_def forwarded_def)
    qed
  qed
qed

lemma SetIdle_drain_fails:
  assumes a: "mActiveProxy s = Some a" and cb: "mActiveCallback s = Some cb"
    and d: "mDecoder s = Some d" and ko: "\<not> NS_SUCCEEDED (drain_rv h)"
  shows "SetIdle (Some a) h s =
    Returns ()
      (s\<lparr>mActiveProxy := None,
         mWaitForInternalDrain := EvDrainComplete \<notin> set (drain_events h),
         trace := trace s @ [Request d ReqDrain] @
                  map (Deliver cb) (remove1 EvDrainComplete (drain_events h)) @
                  [Request d ReqFlush, SetActiveProxy None]\<rparr>)"
proof -
  let ?s0 = "emit (Request d ReqDrain) (s\<lparr>mWaitForInternalDrain := True\<rparr>)"
  have cb0: "mActiveCallback ?s0 = Some cb" and w0: "mWaitForInternalDrain ?s0"
    using cb by (simp_all add: emit_def)
  note r = raise_events_pending [OF cb0 w0, of "drain_events h"]
  from a d ko r show ?thesis
    by (simp add: SetIdle_def SharedDecoderProxy_Drain_def decoder_Drain_def decoder_call_def
          SharedDecoderProxy_Flush_def emit_def)
qed

lemma manager_ok_callback:
  "manager_ok s \<Longrightarrow> mActiveProxy s = Some a \<Longrightarrow> mActiveCallback s = Some (mCallback a)"
  by (simp add: manager_ok_def)

lemma manager_ok_factory:
  "manager_ok s \<Longrightarrow> mDecoder s = Some d \<Longrightarrow> \<exists>pdm. mPDM s = Some pdm"
  by (auto simp add: manager_ok_def)

lemma active_A_state_ok: "manager_ok active_A_state"
  by (simp add: manager_ok_def active_A_state_def created_state_def proxy_A_def)

subsection \<open>Switching the active proxy\<close>

text \<open>
  Claim C1. \<open>Select b\<close> while a different proxy \<open>a\<close> is active, on a manager that holds a
  decoder whose drain request succeeds. When the drain is acknowledged, \<open>Select\<close>
  returns and what it added to the history is, in this order: the drain request; the
  events forwarded to the sink of \<open>a\<close>, which are the events raised meanwhile without
  the acknowledging drain-complete (that one is consumed by the manager and clears the
  flag); the flush request; the write that clears the active proxy; the write that
  records \<open>b\<close>. When the drain is never acknowledged, \<open>Select\<close> waits forever with the
  drain sent, no flush sent and \<open>a\<close> still the active proxy.
\<close>

theorem select_hands_off_in_order:
  assumes "manager_ok s" and "mActiveProxy s = Some a" and "b \<noteq> a"
    and "mDecoder s = Some d" and "NS_SUCCEEDED (drain_rv h)"
  shows "Select b h s =
    (if acknowledged h
     then Returns ()
            (s\<lparr>mActiveProxy := Some b, mActiveCallback := Some (mCallback b),
               mWaitForInternalDrain := False,
               trace := trace s @ [Request d ReqDrain] @
                        map (Deliver (mCallback a)) (forwarded h) @
                        [Request d ReqFlush, SetActiveProxy None, SetActiveProxy (Some b)]\<rparr>)
     else Stops WaitsForever
            (s\<lparr>mWaitForInternalDrain := True,
               trace := trace s @ [Request d ReqDrain] @
                        map (Deliver (mCallback a)) (drain_events h @ wait_events h)\<rparr>))"
proof -
  from assms have cb: "mActiveCallback s = Some (mCallback a)"
    by (simp add: manager_ok_callback)
  note i = SetIdle_drain_succeeds [OF assms(2) cb assms(4) assms(5)]
  from assms(2,3) i show ?thesis
    by (auto simp add: Select_def emit_def)
qed

theorem select_hands_off_in_order_witness:
  "manager_ok active_A_state \<and> mActiveProxy active_A_state = Some proxy_A \<and>
   proxy_B \<noteq> proxy_A \<and> mDecoder active_A_state = Some 20 \<and>
   NS_SUCCEEDED (drain_rv late_hand_off) \<and>
   Select proxy_B late_hand_off active_A_state =
     Returns ()
       (active_A_state\<lparr>mActiveProxy := Some proxy_B, mActiveCallback := Some 11,
          trace := [CreateDecoder 1 2 3 4, SetActiveProxy (Some proxy_A),
                    Request 20 ReqDrain, Deliver 10 (EvOutput 7), Request 20 ReqFlush,
                    SetActiveProxy None, SetActiveProxy (Some proxy_B)]\<rparr>)"
proof -
  have a: "mActiveProxy active_A_state = Some proxy_A"
    by (simp add: active_A_state_def)
  have ne: "proxy_B \<noteq> proxy_A"
    by (simp add: proxy_A_def proxy_B_def)
  have d: "mDecoder active_A_state = Some 20"
    by (simp add: active_A_state_def created_state_def)
  have rv: "NS_SUCCEEDED (drain_rv late_hand_off)"
    by (simp add: late_hand_off_def NS_SUCCEEDED_def)
  from select_hands_off_in_order [OF active_A_state_ok a ne d rv] active_A_state_ok a ne d rv
  show ?thesis
    by (simp add: acknowledged_def forwarded_def late_hand_off_def active_A_state_def
          created_state_def proxy_A_def proxy_B_def)
qed

subsection \<open>Recreating the decoder\<close>

text \<open>
  Claim C4. \<open>Recreate\<close> on a manager that holds a decoder sends that decoder a flush and
  then a shutdown, and only then asks the stored factory for a new instance with the
  given configuration. When the factory delivers one, \<open>Recreate\<close> returns true and the
  state differs from the one before only in the new decoder, in \<open>mInit\<close> being false and
  in the history, so the active proxy is the one it was. When the factory fails,
  \<open>Recreate\<close> returns false.
\<close>

theorem recreate_replaces_decoder:
  assumes "manager_ok s" and "mDecoder s = Some d"
  shows "\<exists>pdm. mPDM s = Some pdm \<and>
           (\<forall>d'. Recreate aConfig (Some d') s =
              Returns True
                (s\<lparr>mDecoder := Some d', mInit := False,
                   trace := trace s @
                     [Request d ReqFlush, Request d ReqShutdown,
                      CreateDecoder pdm aConfig (mLayersBackend s) (mImageContainer s)]\<rparr>)) \<and>
           Recreate aConfig None s =
              Returns False
                (s\<lparr>mDecoder := None,
                   trace := trace s @
                     [Request d ReqFlush, Request d ReqShutdown,
                      CreateDecoder pdm aConfig (mLayersBackend s) (mImageContainer s)]\<rparr>)"
proof -
  from assms obtain pdm where pdm: "mPDM s = Some pdm"
    using manager_ok_factory by blast
  with assms(2) show ?thesis
    by (simp add: Recreate_def decoder_call_def emit_def Let_def)
qed

theorem recreate_replaces_decoder_witness:
  "manager_ok active_A_state \<and> mDecoder active_A_state = Some 20 \<and>
   Recreate 2 (Some 21) active_A_state =
     Returns True
       (active_A_state\<lparr>mDecoder := Some 21, mInit := False,
          trace := trace active_A_state @
            [Request 20 ReqFlush, Request 20 ReqShutdown, CreateDecoder 1 2 3 4]\<rparr>) \<and>
   Recreate 2 None active_A_state =
     Returns False
       (active_A_state\<lparr>mDecoder := None,
          trace := trace active_A_state @
            [Request 20 ReqFlush, Request 20 ReqShutdown, CreateDecoder 1 2 3 4]\<rparr>)"
proof -
  have d: "mDecoder active_A_state = Some 20"
    by (simp add: active_A_state_def created_state_def)
  have f: "mPDM active_A_state = Some 1" "mLayersBackend active_A_state = 3"
    "mImageContainer active_A_state = 4"
    by (simp_all add: active_A_state_def created_state_def)
  from recreate_replaces_decoder [OF active_A_state_ok d, of 2] f active_A_state_ok d
  show ?thesis by auto
qed

subsection \<open>Initialisation without a decoder\<close>

text \<open>
  Claim C9. When the manager holds no decoder, \<open>InitDecoder\<close> does not fail: it returns
  a new future that is already resolved with the video track type, whether \<open>mInit\<close> is
  true or false, and sends nothing. The manager holds no decoder after \<open>Shutdown\<close>, and
  after a \<open>Recreate\<close> whose factory fails; both leave \<open>mInit\<close> as it was.
\<close>

theorem init_without_decoder_resolves:
  "(mDecoder s = None \<longrightarrow>
      InitDecoder debug s =
        Returns (length (promises s)) (s\<lparr>promises := promises s @ [Resolved kVideoTrack]\<rparr>)) \<and>
   (returns (Shutdown s) \<and> mDecoder (state_of (Shutdown s)) = None \<and>
      mInit (state_of (Shutdown s)) = mInit s) \<and>
   (mDecoder s \<noteq> None \<and> mPDM s \<noteq> None \<longrightarrow>
      Recreate aConfig None s = Returns False (state_of (Recreate aConfig None s)) \<and>
      mDecoder (state_of (Recreate aConfig None s)) = None \<and>
      mInit (state_of (Recreate aConfig None s)) = mInit s)"
  by (auto simp add: InitDecoder_def CreateAndResolve_def Shutdown_def Recreate_def
        decoder_call_def emit_def Let_def split: option.splits)

theorem init_without_decoder_resolves_witness:
  "mDecoder (SharedDecoderManager_ctor 0) = None \<and>
   InitDecoder True (SharedDecoderManager_ctor 0) =
     Returns 0 ((SharedDecoderManager_ctor 0)\<lparr>promises := [Resolved kVideoTrack]\<rparr>) \<and>
   mDecoder active_A_state \<noteq> None \<and> mPDM active_A_state \<noteq> None \<and>
   Recreate 2 None active_A_state = Returns False (state_of (Recreate 2 None active_A_state)) \<and>
   mDecoder (state_of (Recreate 2 None active_A_state)) = None \<and>
   mInit (state_of (Recreate 2 None active_A_state)) = mInit active_A_state"
proof -
  have n: "mDecoder (SharedDecoderManager_ctor 0) = None"
    "promises (SharedDecoderManager_ctor 0) = []"
    by (simp_all add: SharedDecoderManager_ctor_def)
  have d: "mDecoder active_A_state \<noteq> None" "mPDM active_A_state \<noteq> None"
    by (simp_all add: active_A_state_def created_state_def)
  from init_without_decoder_resolves [of "SharedDecoderManager_ctor 0" True 2]
    init_without_decoder_resolves [of active_A_state True 2] n d
  show ?thesis by simp
qed

subsection \<open>The flag a failed drain leaves behind\<close>




subsection \<open>What every operation keeps\<close>

lemma keeps_core_refl: "keeps_core s s"
  by (simp add: keeps_core_def)

lemma keeps_core_trans: "keeps_core s s1 \<Longrightarrow> keeps_core s1 s2 \<Longrightarrow> keeps_core s s2"
  by (auto simp add: keeps_core_def)

lemma keeps_core_flag_trace:
  "keeps_core s (s\<lparr>mWaitForInternalDrain := f\<rparr>)" "keeps_core s (emit a s)"
  by (simp_all add: keeps_core_def emit_def)

lemma keeps_core_and_then:
  assumes "keeps_core s (state_of m)" and "\<And>r s1. keeps_core s1 (state_of (f r s1))"
  shows "keeps_core s (state_of (and_then m f))"
proof (cases m)
  case (Returns r s1)
  with assms(1) assms(2) [of s1 r] show ?thesis
    by (auto intro: keeps_core_trans)
next
  case (Stops x s1)
  with assms(1) show ?thesis by simp
qed

lemma keeps_core_DrainComplete: "keeps_core s (state_of (DrainComplete s))"
  by (simp add: DrainComplete_def keeps_core_flag_trace keeps_core_refl split: option.split)

lemma keeps_core_SharedDecoderCallback: "keeps_core s (state_of (SharedDecoderCallback e s))"
  by (cases e)
     (simp_all add: keeps_core_DrainComplete keeps_core_flag_trace keeps_core_refl
        split: option.split)

lemma keeps_core_raise_events: "keeps_core s (state_of (raise_events es s))"
proof (induction es arbitrary: s)
  case Nil
  show ?case by (simp add: keeps_core_refl)
next
  case (Cons e es)
  show ?case
    by (simp add: keeps_core_and_then keeps_core_SharedDecoderCallback Cons.IH)
qed

lemma keeps_core_wait: "keeps_core s (state_of (wait_internal_drain es s))"
proof (induction es arbitrary: s)
  case Nil
  show ?case by (simp add: keeps_core_refl)
next
  case (Cons e es)
  show ?case
    by (simp add: keeps_core_and_then keeps_core_SharedDecoderCallback Cons.IH keeps_core_refl)
qed

lemma keeps_core_decoder_call: "keeps_core s (state_of (decoder_call r answer s))"
  by (simp add: decoder_call_def keeps_core_flag_trace keeps_core_refl split: option.split)

lemma keeps_core_decoder_Drain: "keeps_core s (state_of (decoder_Drain rv evs s))"
  unfolding decoder_Drain_def
  by (intro keeps_core_and_then keeps_core_decoder_call)
     (simp add: keeps_core_raise_events keeps_core_refl)+

lemma keeps_core_Proxy_Flush: "keeps_core s (state_of (SharedDecoderProxy_Flush this rv s))"
  by (simp add: SharedDecoderProxy_Flush_def keeps_core_decoder_call keeps_core_refl)

lemma keeps_core_Proxy_Drain: "keeps_core s (state_of (SharedDecoderProxy_Drain this rv evs s))"
  by (simp add: SharedDecoderProxy_Drain_def keeps_core_decoder_Drain keeps_core_flag_trace)

lemma keeps_core_Proxy_IsHardwareAccelerated:
  "keeps_core s (state_of (SharedDecoderProxy_IsHardwareAccelerated this answer s))"
  by (simp add: SharedDecoderProxy_IsHardwareAccelerated_def keeps_core_decoder_call)

lemma keeps_core_SetIdle: "keeps_core s (state_of (SetIdle p h s))"
proof (cases "p \<noteq> None \<and> mActiveProxy s = p")
  case False
  then have "SetIdle p h s = Returns () s"
    by (auto simp add: SetIdle_def)
  then show ?thesis by (simp add: keeps_core_refl)
next
  case True
  then obtain a where a: "mActiveProxy s = Some a" and p: "p = Some a"
    by auto
  have first: "keeps_core s (state_of (SharedDecoderProxy_Drain a (drain_rv h) (drain_events h)
                 (s\<lparr>mWaitForInternalDrain := True\<rparr>)))"
    by (rule keeps_core_trans [OF keeps_core_flag_trace(1) keeps_core_Proxy_Drain])
  have last: "keeps_core s3 (emit (SetActiveProxy None) (s3\<lparr>mActiveProxy := None\<rparr>))" for s3
    by (simp add: keeps_core_def emit_def)
  have flush: "keeps_core s2 (state_of (case mActiveProxy s2 of
                       None \<Rightarrow> Stops NullDeref s2
                     | Some a \<Rightarrow> SharedDecoderProxy_Flush a (flush_rv h) s2))" for s2
    by (simp add: keeps_core_Proxy_Flush keeps_core_refl split: option.split)
  have wait: "keeps_core s1 (state_of (if NS_SUCCEEDED rv then wait_internal_drain (wait_events h) s1
                else Returns () s1))" for rv s1
    by (simp add: keeps_core_wait keeps_core_refl)
  from a p first show ?thesis
    unfolding SetIdle_def
    by (simp add: keeps_core_and_then wait flush last)
qed

lemma returned_state: "m = Returns r s1 \<Longrightarrow> state_of m = s1"
  by simp

lemma Select_state:
  "mInit (state_of (Select b h s)) = mInit s \<and> mDecoder (state_of (Select b h s)) = mDecoder s \<and>
   mPDM (state_of (Select b h s)) = mPDM s \<and>
   ((mActiveProxy (state_of (Select b h s)) = Some b \<and>
     mActiveCallback (state_of (Select b h s)) = Some (mCallback b)) \<or>
    keeps_core s (state_of (Select b h s)))"
proof (cases "mActiveProxy s = Some b")
  case True
  then show ?thesis by (simp add: Select_def keeps_core_refl)
next
  case False
  note k = keeps_core_SetIdle [of s "mActiveProxy s" h]
  show ?thesis
  proof (cases "SetIdle (mActiveProxy s) h s")
    case (Returns r s1)
    with k False show ?thesis
      by (simp add: Select_def emit_def keeps_core_def)
  next
    case (Stops x s1)
    with k False show ?thesis
      by (simp add: Select_def keeps_core_def)
  qed
qed

lemma manager_ok_keeps_core: "keeps_core s s' \<Longrightarrow> manager_ok s \<Longrightarrow> manager_ok s'"
  by (auto simp add: keeps_core_def manager_ok_def split: option.splits)

lemma manager_ok_Select: "manager_ok s \<Longrightarrow> manager_ok (state_of (Select b h s))"
  using Select_state [of b h s]
  by (auto simp add: manager_ok_def keeps_core_def split: option.splits)

lemma InitDecoder_state:
  "mInit (state_of (InitDecoder debug s)) = mInit s \<and>
   mDecoder (state_of (InitDecoder debug s)) = mDecoder s \<and>
   mPDM (state_of (InitDecoder debug s)) = mPDM s \<and>
   mActiveProxy (state_of (InitDecoder debug s)) = mActiveProxy s \<and>
   mActiveCallback (state_of (InitDecoder debug s)) = mActiveCallback s"
  by (auto simp add: InitDecoder_def Ensure_def CreateAndResolve_def decoder_call_def emit_def
        split: option.splits)

lemma keeps_core_InitDecoder: "keeps_core s (state_of (InitDecoder debug s))"
  using InitDecoder_state [of debug s] by (simp add: keeps_core_def)

lemma manager_ok_InitDecoder: "manager_ok s \<Longrightarrow> manager_ok (state_of (InitDecoder debug s))"
  by (rule manager_ok_keeps_core [OF keeps_core_InitDecoder])

lemma init_settles_state:
  "(mInit s \<longrightarrow> mInit (init_settles r s)) \<and> mDecoder (init_settles r s) = mDecoder s \<and>
   mPDM (init_settles r s) = mPDM s \<and> mActiveProxy (init_settles r s) = mActiveProxy s \<and>
   mActiveCallback (init_settles r s) = mActiveCallback s"
  by (auto simp add: init_settles_def on_init_resolved_def on_init_rejected_def
        settle_if_exists_def split: option.splits sum.splits)

lemma select_if_needed:
  "(mInit s \<longrightarrow> mInit (state_of (if mActiveProxy s \<noteq> Some this then Select this h s else Returns () s))) \<and>
   (manager_ok s \<longrightarrow> manager_ok (state_of (if mActiveProxy s \<noteq> Some this then Select this h s else Returns () s)))"
  using Select_state [of this h s] by (simp add: manager_ok_Select)

lemma Proxy_Init_state:
  "(mInit s \<longrightarrow> mInit (state_of (SharedDecoderProxy_Init this debug h s))) \<and>
   (manager_ok s \<longrightarrow> manager_ok (state_of (SharedDecoderProxy_Init this debug h s)))"
proof (cases "if mActiveProxy s \<noteq> Some this then Select this h s else Returns () s")
  case (Returns r s1)
  with select_if_needed [of s this h] show ?thesis
    by (simp add: SharedDecoderProxy_Init_def InitDecoder_state manager_ok_InitDecoder)
next
  case (Stops x s1)
  with select_if_needed [of s this h] show ?thesis
    by (simp add: SharedDecoderProxy_Init_def)
qed

lemma Proxy_Input_state:
  "(mInit s \<longrightarrow> mInit (state_of (SharedDecoderProxy_Input this aSample h rv s))) \<and>
   (manager_ok s \<longrightarrow> manager_ok (state_of (SharedDecoderProxy_Input this aSample h rv s)))"
proof (cases "if mActiveProxy s \<noteq> Some this then Select this h s else Returns () s")
  case (Returns r s1)
  note k = keeps_core_decoder_call [of s1 "ReqInput aSample" rv]
  from Returns select_if_needed [of s this h] k manager_ok_keeps_core [OF k] show ?thesis
    by (simp add: SharedDecoderProxy_Input_def keeps_core_def)
next
  case (Stops x s1)
  with select_if_needed [of s this h] show ?thesis
    by (simp add: SharedDecoderProxy_Input_def)
qed

lemma keeps_core_Proxy_Shutdown: "keeps_core s (state_of (SharedDecoderProxy_Shutdown this h s))"
  unfolding SharedDecoderProxy_Shutdown_def
  by (intro keeps_core_and_then keeps_core_SetIdle) (simp add: keeps_core_refl)

lemma keeps_core_Proxy_dtor: "keeps_core s (state_of (SharedDecoderProxy_dtor this h s))"
  unfolding SharedDecoderProxy_dtor_def
  by (intro keeps_core_and_then keeps_core_Proxy_Shutdown) (simp add: keeps_core_refl)

lemma CreateVideoDecoder_state:
  "mInit (state_of (CreateVideoDecoder aPDM aConfig lb ic q cb created addr s)) = mInit s \<and>
   (manager_ok s \<longrightarrow> manager_ok (state_of (CreateVideoDecoder aPDM aConfig lb ic q cb created addr s)))"
  by (auto simp add: CreateVideoDecoder_def emit_def Let_def manager_ok_def split: option.splits)

lemma Shutdown_state:
  "mInit (state_of (Shutdown s)) = mInit s \<and> (manager_ok s \<longrightarrow> manager_ok (state_of (Shutdown s)))"
  by (auto simp add: Shutdown_def emit_def Let_def manager_ok_def split: option.splits)

lemma manager_ok_Recreate: "manager_ok s \<Longrightarrow> manager_ok (state_of (Recreate aConfig created s))"
  by (auto simp add: Recreate_def decoder_call_def emit_def Let_def manager_ok_def
        split: option.splits)

lemma manager_ok_exec: "manager_ok s \<Longrightarrow> manager_ok (exec x s)"
proof (cases x)
  case (Op_CreateVideoDecoder a b c d e f g h)
  then show "manager_ok s \<Longrightarrow> ?thesis" by (simp add: CreateVideoDecoder_state)
next
  case (Op_Recreate c cr)
  then show "manager_ok s \<Longrightarrow> ?thesis" by (simp add: manager_ok_Recreate)
next
  case (Op_Select b h)
  then show "manager_ok s \<Longrightarrow> ?thesis" by (simp add: manager_ok_Select)
next
  case (Op_SetIdle p h)
  then show "manager_ok s \<Longrightarrow> ?thesis"
    by (simp add: manager_ok_keeps_core [OF keeps_core_SetIdle])
next
  case (Op_InitDecoder debug)
  then show "manager_ok s \<Longrightarrow> ?thesis" by (simp add: manager_ok_InitDecoder)
next
  case (Op_init_settles r)
  then show "manager_ok s \<Longrightarrow> ?thesis"
    using init_settles_state [of s r] by (auto simp add: manager_ok_def split: option.splits)
next
  case Op_DrainComplete
  then show "manager_ok s \<Longrightarrow> ?thesis"
    by (simp add: manager_ok_keeps_core [OF keeps_core_DrainComplete])
next
  case (Op_SharedDecoderCallback e)
  then show "manager_ok s \<Longrightarrow> ?thesis"
    by (simp add: manager_ok_keeps_core [OF keeps_core_SharedDecoderCallback])
next
  case Op_Shutdown
  then show "manager_ok s \<Longrightarrow> ?thesis" by (simp add: Shutdown_state)
next
  case (Op_Proxy_Init this debug h)
  then show "manager_ok s \<Longrightarrow> ?thesis" by (simp add: Proxy_Init_state)
next
  case (Op_Proxy_Input this aSample h rv)
  then show "manager_ok s \<Longrightarrow> ?thesis" by (simp add: Proxy_Input_state)
next
  case (Op_Proxy_Flush this rv)
  then show "manager_ok s \<Longrightarrow> ?thesis"
    by (simp add: manager_ok_keeps_core [OF keeps_core_Proxy_Flush])
next
  case (Op_Proxy_Drain this rv evs)
  then show "manager_ok s \<Longrightarrow> ?thesis"
    by (simp add: manager_ok_keeps_core [OF keeps_core_Proxy_Drain])
next
  case (Op_Proxy_Shutdown this h)
  then show "manager_ok s \<Longrightarrow> ?thesis"
    by (simp add: manager_ok_keeps_core [OF keeps_core_Proxy_Shutdown])
next
  case (Op_Proxy_IsHardwareAccelerated this answer)
  then show "manager_ok s \<Longrightarrow> ?thesis"
    by (simp add: manager_ok_keeps_core [OF keeps_core_Proxy_IsHardwareAccelerated])
next
  case (Op_Proxy_dtor this h)
  then show "manager_ok s \<Longrightarrow> ?thesis"
    by (simp add: manager_ok_keeps_core [OF keeps_core_Proxy_dtor])
qed

lemma manager_ok_run: "manager_ok s \<Longrightarrow> manager_ok (run xs s)"
  by (induction xs arbitrary: s) (simp_all add: manager_ok_exec)

lemma manager_ok_reachable: "manager_ok (run xs (SharedDecoderManager_ctor lb))"
  by (rule manager_ok_run) (simp add: manager_ok_def SharedDecoderManager_ctor_def)

lemma keeps_core_mInit: "keeps_core s s' \<Longrightarrow> mInit s' = mInit s"
  by (simp add: keeps_core_def)

subsection \<open>Who resets the initialisation\<close>

text \<open>
  Claim C5. No operation of the manager or of a proxy other than \<open>Recreate\<close> turns
  \<open>mInit\<close> from true to false: \<open>CreateVideoDecoder\<close>, \<open>Select\<close>, \<open>SetIdle\<close>,
  \<open>InitDecoder\<close> and the settling of its init, \<open>DrainComplete\<close>, the callback's events,
  \<open>Shutdown\<close>, and the proxy's \<open>Init\<close>, \<open>Input\<close>, \<open>Flush\<close>, \<open>Drain\<close>, \<open>Shutdown\<close>,
  \<open>IsHardwareAccelerated\<close> and destructor all leave a true \<open>mInit\<close> true, whether they
  return or stop. \<open>Recreate\<close> with a factory that delivers does reset it.
\<close>

theorem only_recreate_resets_init:
  "(mInit s \<and> \<not> is_Recreate x \<longrightarrow> mInit (exec x s)) \<and>
   (mDecoder s \<noteq> None \<and> mPDM s \<noteq> None \<longrightarrow>
      \<not> mInit (exec (Op_Recreate aConfig (Some d')) s))"
proof (intro conjI impI)
  assume "mInit s \<and> \<not> is_Recreate x"
  then have i: "mInit s" and n: "\<not> is_Recreate x" by simp_all
  show "mInit (exec x s)"
  proof (cases x)
    case (Op_CreateVideoDecoder a b c d e f g h)
    with i show ?thesis by (simp add: CreateVideoDecoder_state)
  next
    case (Op_Recreate c cr)
    with n show ?thesis by simp
  next
    case (Op_Select b h)
    with i show ?thesis by (simp add: Select_state)
  next
    case (Op_SetIdle p h)
    with i show ?thesis by (simp add: keeps_core_mInit [OF keeps_core_SetIdle])
  next
    case (Op_InitDecoder debug)
    with i show ?thesis by (simp add: InitDecoder_state)
  next
    case (Op_init_settles r)
    with i show ?thesis by (simp add: init_settles_state)
  next
    case Op_DrainComplete
    with i show ?thesis by (simp add: keeps_core_mInit [OF keeps_core_DrainComplete])
  next
    case (Op_SharedDecoderCallback e)
    with i show ?thesis by (simp add: keeps_core_mInit [OF keeps_core_SharedDecoderCallback])
  next
    case Op_Shutdown
    with i show ?thesis by (simp add: Shutdown_state)
  next
    case (Op_Proxy_Init this debug h)
    with i show ?thesis by (simp add: Proxy_Init_state)
  next
    case (Op_Proxy_Input this aSample h rv)
    with i show ?thesis by (simp add: Proxy_Input_state)
  next
    case (Op_Proxy_Flush this rv)
    with i show ?thesis by (simp add: keeps_core_mInit [OF keeps_core_Proxy_Flush])
  next
    case (Op_Proxy_Drain this rv evs)
    with i show ?thesis by (simp add: keeps_core_mInit [OF keeps_core_Proxy_Drain])
  next
    case (Op_Proxy_Shutdown this h)
    with i show ?thesis by (simp add: keeps_core_mInit [OF keeps_core_Proxy_Shutdown])
  next
    case (Op_Proxy_IsHardwareAccelerated this answer)
    with i show ?thesis
      by (simp add: keeps_core_mInit [OF keeps_core_Proxy_IsHardwareAccelerated])
  next
    case (Op_Proxy_dtor this h)
    with i show ?thesis by (simp add: keeps_core_mInit [OF keeps_core_Proxy_dtor])
  qed
next
  assume "mDecoder s \<noteq> None \<and> mPDM s \<noteq> None"
  then show "\<not> mInit (exec (Op_Recreate aConfig (Some d')) s)"
    by (auto simp add: Recreate_def decoder_call_def emit_def Let_def)
qed

theorem only_recreate_resets_init_witness:
  "mInit initialised_state \<and> \<not> is_Recreate (Op_Proxy_Init proxy_B True prompt_hand_off) \<and>
   mInit (exec (Op_Proxy_Init proxy_B True prompt_hand_off) initialised_state) \<and>
   mDecoder initialised_state \<noteq> None \<and> mPDM initialised_state \<noteq> None \<and>
   \<not> mInit (exec (Op_Recreate 2 (Some 21)) initialised_state)"
proof -
  have i: "mInit initialised_state"
    by (simp add: initialised_state_def)
  have n: "\<not> is_Recreate (Op_Proxy_Init proxy_B True prompt_hand_off)"
    by simp
  have d: "mDecoder initialised_state \<noteq> None" "mPDM initialised_state \<noteq> None"
    by (simp_all add: initialised_state_def active_A_state_def created_state_def)
  from only_recreate_resets_init [of initialised_state "Op_Proxy_Init proxy_B True prompt_hand_off" 2 21]
    i n d
  show ?thesis by blast
qed

subsection \<open>Shutting a proxy down, once and again\<close>

text \<open>
  Claim C10, as the code has it. \<open>Shutdown\<close> of a proxy never reports a failure status.
  On a proxy that is not active it returns success and leaves the state as it is, and
  so does the destructor. On the active proxy, when the manager holds its decoder and
  the drain request either fails or is acknowledged, it performs the hand-off of
  \<open>SetIdle\<close> (a drain and a flush reach the decoder), clears the active proxy and returns
  success; every later \<open>Shutdown\<close> of that proxy, and its destructor, then return with
  the state unchanged and nothing sent.
\<close>

theorem proxy_shutdown_idempotent:
  "(mActiveProxy s \<noteq> Some this \<longrightarrow>
      SharedDecoderProxy_Shutdown this h s = Returns NS_OK s \<and>
      SharedDecoderProxy_dtor this h s = Returns () s) \<and>
   (manager_ok s \<and> mActiveProxy s = Some this \<and> mDecoder s = Some d \<and>
    (NS_SUCCEEDED (drain_rv h) \<longrightarrow> acknowledged h) \<longrightarrow>
      (\<exists>s'. SharedDecoderProxy_Shutdown this h s = Returns NS_OK s' \<and>
            SetIdle (Some this) h s = Returns () s' \<and>
            mActiveProxy s' = None \<and>
            requests (trace s') = requests (trace s) @ [(d, ReqDrain), (d, ReqFlush)] \<and>
            (\<forall>h'. SharedDecoderProxy_Shutdown this h' s' = Returns NS_OK s' \<and>
                  SharedDecoderProxy_dtor this h' s' = Returns () s'))) \<and>
   (\<forall>rv s'. SharedDecoderProxy_Shutdown this h s = Returns rv s' \<longrightarrow> rv = NS_OK)"
proof (intro conjI impI allI)
  assume "mActiveProxy s \<noteq> Some this"
  then have "SetIdle (Some this) h s = Returns () s"
    by (simp add: SetIdle_not_active)
  then show "SharedDecoderProxy_Shutdown this h s = Returns NS_OK s"
    and "SharedDecoderProxy_dtor this h s = Returns () s"
    by (simp_all add: SharedDecoderProxy_dtor_def SharedDecoderProxy_Shutdown_def)
next
  assume pre: "manager_ok s \<and> mActiveProxy s = Some this \<and> mDecoder s = Some d \<and>
    (NS_SUCCEEDED (drain_rv h) \<longrightarrow> acknowledged h)"
  then have a: "mActiveProxy s = Some this" and d: "mDecoder s = Some d"
    and cb: "mActiveCallback s = Some (mCallback this)"
    by (simp_all add: manager_ok_callback)
  have "\<exists>s'. SetIdle (Some this) h s = Returns () s' \<and> mActiveProxy s' = None \<and>
             requests (trace s') = requests (trace s) @ [(d, ReqDrain), (d, ReqFlush)]"
  proof (cases "NS_SUCCEEDED (drain_rv h)")
    case True
    with pre have "acknowledged h" by simp
    with SetIdle_drain_succeeds [OF a cb d True] show ?thesis
      by (simp add: requests_append requests_deliveries)
  next
    case False
    from SetIdle_drain_fails [OF a cb d False] show ?thesis
      by (simp add: requests_append requests_deliveries)
  qed
  then obtain s' where i: "SetIdle (Some this) h s = Returns () s'"
    and n: "mActiveProxy s' = None"
    and r: "requests (trace s') = requests (trace s) @ [(d, ReqDrain), (d, ReqFlush)]"
    by blast
  from n have again: "SetIdle (Some this) h' s' = Returns () s'" for h'
    by (simp add: SetIdle_not_active)
  from i n r again
  show "\<exists>s'. SharedDecoderProxy_Shutdown this h s = Returns NS_OK s' \<and>
            SetIdle (Some this) h s = Returns () s' \<and>
            mActiveProxy s' = None \<and>
            requests (trace s') = requests (trace s) @ [(d, ReqDrain), (d, ReqFlush)] \<and>
            (\<forall>h'. SharedDecoderProxy_Shutdown this h' s' = Returns NS_OK s' \<and>
                  SharedDecoderProxy_dtor this h' s' = Returns () s')"
    by (simp add: SharedDecoderProxy_dtor_def SharedDecoderProxy_Shutdown_def)
next
  fix rv s'
  assume "SharedDecoderProxy_Shutdown this h s = Returns rv s'"
  then show "rv = NS_OK"
    by (cases "SetIdle (Some this) h s") (simp_all add: SharedDecoderProxy_Shutdown_def)
qed

theorem proxy_shutdown_idempotent_witness:
  "mActiveProxy active_A_state \<noteq> Some proxy_B \<and>
   SharedDecoderProxy_Shutdown proxy_B silent_hand_off active_A_state =
     Returns NS_OK active_A_state \<and>
   manager_ok active_A_state \<and> mActiveProxy active_A_state = Some proxy_A \<and>
   mDecoder active_A_state = Some 20 \<and>
   NS_SUCCEEDED (drain_rv prompt_hand_off) \<and> acknowledged prompt_hand_off \<and>
   (\<exists>s'. SharedDecoderProxy_Shutdown proxy_A prompt_hand_off active_A_state = Returns NS_OK s' \<and>
      mActiveProxy s' = None \<and>
      requests (trace s') = [(20, ReqDrain), (20, ReqFlush)] \<and>
      SharedDecoderProxy_Shutdown proxy_A prompt_hand_off s' = Returns NS_OK s' \<and>
      SharedDecoderProxy_dtor proxy_A prompt_hand_off s' = Returns () s')"
proof -
  have nb: "mActiveProxy active_A_state \<noteq> Some proxy_B"
    by (simp add: active_A_state_def proxy_A_def proxy_B_def)
  have a: "mActiveProxy active_A_state = Some proxy_A"
    by (simp add: active_A_state_def)
  have d: "mDecoder active_A_state = Some 20"
    by (simp add: active_A_state_def created_state_def)
  have k: "acknowledged prompt_hand_off"
    by (simp add: acknowledged_def prompt_hand_off_def)
  have rv: "NS_SUCCEEDED (drain_rv prompt_hand_off)"
    by (simp add: prompt_hand_off_def NS_SUCCEEDED_def)
  have t: "requests (trace active_A_state) = []"
    by (simp add: active_A_state_def)
  from proxy_shutdown_idempotent [of active_A_state proxy_B silent_hand_off 20] nb
  have one: "SharedDecoderProxy_Shutdown proxy_B silent_hand_off active_A_state =
     Returns NS_OK active_A_state"
    by simp
  from proxy_shutdown_idempotent [of active_A_state proxy_A prompt_hand_off 20]
    active_A_state_ok a d k t
  have two: "\<exists>s'. SharedDecoderProxy_Shutdown proxy_A prompt_hand_off active_A_state = Returns NS_OK s' \<and>
      mActiveProxy s' = None \<and>
      requests (trace s') = [(20, ReqDrain), (20, ReqFlush)] \<and>
      SharedDecoderProxy_Shutdown proxy_A prompt_hand_off s' = Returns NS_OK s' \<and>
      SharedDecoderProxy_dtor proxy_A prompt_hand_off s' = Returns () s'"
    by auto
  from nb one active_A_state_ok a d rv k two show ?thesis by blast
qed

text \<open>
  Without those conditions the call on the active proxy does not return: after a
  \<open>Recreate\<close> whose factory failed there is no decoder to drain, and a drain that is
  accepted and never acknowledged is waited for without end.
\<close>

theorem proxy_shutdown_can_stop:
  "Recreate 2 None active_A_state =
     Returns False (state_of (Recreate 2 None active_A_state)) \<and>
   mActiveProxy (state_of (Recreate 2 None active_A_state)) = Some proxy_A \<and>
   SharedDecoderProxy_Shutdown proxy_A prompt_hand_off (state_of (Recreate 2 None active_A_state)) =
     Stops NullDeref ((state_of (Recreate 2 None active_A_state))\<lparr>mWaitForInternalDrain := True\<rparr>) \<and>
   SharedDecoderProxy_Shutdown proxy_A silent_hand_off active_A_state =
     Stops WaitsForever
       (active_A_state\<lparr>mWaitForInternalDrain := True,
          trace := trace active_A_state @ [Request 20 ReqDrain]\<rparr>)"
  by (simp add: Recreate_def SharedDecoderProxy_Shutdown_def SetIdle_def
        SharedDecoderProxy_Drain_def decoder_Drain_def decoder_call_def emit_def Let_def
        NS_SUCCEEDED_def silent_hand_off_def prompt_hand_off_def
        active_A_state_def created_state_def proxy_A_def)

subsection \<open>Events after the active proxy was released\<close>

text \<open>
  Claim C2 says that an event raised while no proxy is active is dropped. \<open>SetIdle\<close>
  clears \<open>mActiveProxy\<close> and leaves \<open>mActiveCallback\<close>, which is what the callback tests
  and calls. So after proxy A has been shut down (drain acknowledged, flush sent) no
  proxy is active, and an output event is still delivered to the sink of A.
\<close>

theorem event_after_hand_off_reaches_old_sink:
  "SharedDecoderProxy_Shutdown proxy_A prompt_hand_off active_A_state =
     Returns NS_OK (state_of (SharedDecoderProxy_Shutdown proxy_A prompt_hand_off active_A_state)) \<and>
   mActiveProxy (state_of (SharedDecoderProxy_Shutdown proxy_A prompt_hand_off active_A_state)) = None \<and>
   SharedDecoderCallback (EvOutput 7)
       (state_of (SharedDecoderProxy_Shutdown proxy_A prompt_hand_off active_A_state)) =
     Returns ()
       (emit (Deliver 10 (EvOutput 7))
          (state_of (SharedDecoderProxy_Shutdown proxy_A prompt_hand_off active_A_state))) \<and>
   delivered 10
       (trace (state_of (SharedDecoderCallback (EvOutput 7)
          (state_of (SharedDecoderProxy_Shutdown proxy_A prompt_hand_off active_A_state))))) =
     [EvOutput 7]"
  by (simp add: SharedDecoderProxy_Shutdown_def SetIdle_def
        SharedDecoderProxy_Drain_def SharedDecoderProxy_Flush_def decoder_Drain_def
        decoder_call_def DrainComplete_def emit_def
        NS_SUCCEEDED_def prompt_hand_off_def
        active_A_state_def created_state_def proxy_A_def)

subsection \<open>Sharing one initialisation\<close>

lemma round_starts_init:
  assumes "mDecoder s = Some d" and "\<not> mInit s" and "init_idle s"
    and "debug \<longrightarrow> mActiveCallback s \<noteq> None"
  shows "InitDecoder_round debug r s =
    Returns (length (promises s))
      (s\<lparr>mInit := (case r of Inl aReason \<Rightarrow> False | Inr aType \<Rightarrow> True),
         mDecoderInitPromise := None, mDecoderInitPromiseRequest := False,
         promises := promises s @
           [case r of Inl aReason \<Rightarrow> Rejected aReason | Inr aType \<Rightarrow> Resolved aType],
         trace := trace s @ [Request d ReqInit]\<rparr>)"
  using assms
  by (cases r)
     (auto simp add: InitDecoder_round_def InitDecoder_def Ensure_def decoder_call_def emit_def
        init_settles_def on_init_resolved_def on_init_rejected_def settle_if_exists_def
        init_idle_def)

lemma round_resolves_at_once:
  assumes "mInit s \<or> mDecoder s = None" and "\<not> mDecoderInitPromiseRequest s"
  shows "InitDecoder_round debug r s =
    Returns (length (promises s)) (s\<lparr>promises := promises s @ [Resolved kVideoTrack]\<rparr>)"
  using assms
  by (auto simp add: InitDecoder_round_def InitDecoder_def CreateAndResolve_def init_settles_def)

lemma upt_first: "[n ..< Suc (n + k)] = n # [Suc n ..< Suc (n + k)]"
  by (simp add: upt_conv_Cons del: upt_Suc)

lemma init_calls_initialised:
  assumes "mInit s" and "\<not> mDecoderInitPromiseRequest s"
  shows "init_calls debug rs s =
    Returns [length (promises s) ..< length (promises s) + length rs]
      (s\<lparr>promises := promises s @ replicate (length rs) (Resolved kVideoTrack)\<rparr>)"
  using assms
proof (induction rs arbitrary: s)
  case Nil
  then show ?case by simp
next
  case (Cons r rs)
  let ?s1 = "s\<lparr>promises := promises s @ [Resolved kVideoTrack]\<rparr>"
  from Cons.prems have one: "InitDecoder_round debug r s = Returns (length (promises s)) ?s1"
    by (simp add: round_resolves_at_once)
  from Cons.prems have "mInit ?s1" and "\<not> mDecoderInitPromiseRequest ?s1"
    by simp_all
  from Cons.IH [OF this] one show ?case
    by (simp add: upt_first replicate_app_Cons_same del: upt_Suc)
qed

lemma init_calls_until_success:
  assumes "mDecoder s = Some d" and "\<not> mInit s" and "init_idle s"
    and "debug \<longrightarrow> mActiveCallback s \<noteq> None"
  shows "\<exists>s'. init_calls debug rs s =
            Returns [length (promises s) ..< length (promises s) + length rs] s' \<and>
          trace s' = trace s @
            replicate (min (length rs) (Suc (length (takeWhile isl rs)))) (Request d ReqInit) \<and>
          promises s' = promises s @ init_results rs \<and>
          mInit s' = (\<exists>aType. Inr aType \<in> set rs)"
  using assms
proof (induction rs arbitrary: s)
  case Nil
  then show ?case by simp
next
  case (Cons r rs)
  show ?case
  proof (cases r)
    case (Inl aReason)
    let ?s1 = "s\<lparr>mInit := False, mDecoderInitPromise := None,
                  mDecoderInitPromiseRequest := False,
                  promises := promises s @ [Rejected aReason],
                  trace := trace s @ [Request d ReqInit]\<rparr>"
    from round_starts_init [OF Cons.prems, of r] Inl
    have one: "InitDecoder_round debug r s = Returns (length (promises s)) ?s1"
      by simp
    from Cons.prems have pre: "mDecoder ?s1 = Some d" "\<not> mInit ?s1" "init_idle ?s1"
      "debug \<longrightarrow> mActiveCallback ?s1 \<noteq> None"
      by (simp_all add: init_idle_def)
    from Cons.IH [OF pre] obtain s' where
      rest: "init_calls debug rs ?s1 =
               Returns [length (promises ?s1) ..< length (promises ?s1) + length rs] s'"
      and tr: "trace s' = trace ?s1 @
            replicate (min (length rs) (Suc (length (takeWhile isl rs)))) (Request d ReqInit)"
      and pr: "promises s' = promises ?s1 @ init_results rs"
      and mi: "mInit s' = (\<exists>aType. Inr aType \<in> set rs)"
      by blast
    from one rest tr pr mi Inl show ?thesis
      by (simp add: upt_first del: upt_Suc)
  next
    case (Inr aType)
    let ?s1 = "s\<lparr>mInit := True, mDecoderInitPromise := None,
                  mDecoderInitPromiseRequest := False,
                  promises := promises s @ [Resolved aType],
                  trace := trace s @ [Request d ReqInit]\<rparr>"
    from round_starts_init [OF Cons.prems, of r] Inr
    have one: "InitDecoder_round debug r s = Returns (length (promises s)) ?s1"
      by simp
    have "mInit ?s1" and "\<not> mDecoderInitPromiseRequest ?s1"
      by simp_all
    from init_calls_initialised [OF this, of debug rs] one Inr show ?thesis
      by (auto simp add: upt_first simp del: upt_Suc)
  qed
qed

text \<open>
  Claim C3, as the code has it. A manager holds a decoder that is not initialised and
  has no init in flight; \<open>InitDecoder\<close> is called once per element of \<open>rs\<close>, each call
  after the result of the one before is known, and \<open>rs\<close> says how the decoder answers.
  Every call returns a new future. Each call made while \<open>mInit\<close> is false sends exactly
  one init request, so the decoder receives one request per failure before the first
  success and one for that success, and none afterwards. A failed init rejects its
  future with the reason and leaves \<open>mInit\<close> false; the first success resolves its
  future with the reported track type and sets \<open>mInit\<close>; every later call sends nothing
  and its future holds \<open>kVideoTrack\<close>, whatever type the decoder reported. A single call
  on an initialised manager returns a future that is resolved when the call returns.
\<close>

theorem init_calls_share_one_init:
  assumes "mDecoder s = Some d" and "\<not> mInit s" and "init_idle s"
    and "debug \<longrightarrow> mActiveCallback s \<noteq> None"
  shows "(\<exists>s'. init_calls debug rs s =
             Returns [length (promises s) ..< length (promises s) + length rs] s' \<and>
           trace s' = trace s @
             replicate (min (length rs) (Suc (length (takeWhile isl rs)))) (Request d ReqInit) \<and>
           promises s' = promises s @ init_results rs \<and>
           mInit s' = (\<exists>aType. Inr aType \<in> set rs)) \<and>
         (\<forall>u. mInit u \<longrightarrow>
            InitDecoder debug u =
              Returns (length (promises u)) (u\<lparr>promises := promises u @ [Resolved kVideoTrack]\<rparr>))"
proof
  from init_calls_until_success [OF assms]
  show "\<exists>s'. init_calls debug rs s =
             Returns [length (promises s) ..< length (promises s) + length rs] s' \<and>
           trace s' = trace s @
             replicate (min (length rs) (Suc (length (takeWhile isl rs)))) (Request d ReqInit) \<and>
           promises s' = promises s @ init_results rs \<and>
           mInit s' = (\<exists>aType. Inr aType \<in> set rs)" .
next
  show "\<forall>u. mInit u \<longrightarrow>
            InitDecoder debug u =
              Returns (length (promises u)) (u\<lparr>promises := promises u @ [Resolved kVideoTrack]\<rparr>)"
    by (simp add: InitDecoder_def CreateAndResolve_def)
qed

theorem init_calls_share_one_init_witness:
  "mDecoder active_A_state = Some 20 \<and> \<not> mInit active_A_state \<and> init_idle active_A_state \<and>
   mActiveCallback active_A_state \<noteq> None \<and>
   (\<exists>s'. init_calls True [Inl INIT_ERROR, Inr kVideoTrack, Inr kVideoTrack] active_A_state =
            Returns [0, 1, 2] s' \<and>
          trace s' = trace active_A_state @ [Request 20 ReqInit, Request 20 ReqInit] \<and>
          promises s' = [Rejected INIT_ERROR, Resolved kVideoTrack, Resolved kVideoTrack] \<and>
          mInit s') \<and>
   mInit initialised_state \<and>
   InitDecoder True initialised_state =
     Returns 1 (initialised_state\<lparr>promises := [Resolved kVideoTrack, Resolved kVideoTrack]\<rparr>)"
proof -
  have d: "mDecoder active_A_state = Some 20" and i: "\<not> mInit active_A_state"
    and idle: "init_idle active_A_state" and cb: "mActiveCallback active_A_state \<noteq> None"
    and p: "promises active_A_state = []"
    by (simp_all add: active_A_state_def created_state_def init_idle_def)
  from cb have cb': "True \<longrightarrow> mActiveCallback active_A_state \<noteq> None" by simp
  have u: "mInit initialised_state" "promises initialised_state = [Resolved kVideoTrack]"
    by (simp_all add: initialised_state_def)
  have n: "[0 ..< 3] = [0, 1, 2::nat]" by (simp add: upt_conv_Cons)
  from init_calls_share_one_init
         [OF d i idle cb', of "[Inl INIT_ERROR, Inr kVideoTrack, Inr kVideoTrack]"]
    d i idle cb p u n
  show ?thesis by (auto simp add: numeral_2_eq_2)
qed

text \<open>
  The claim as written fails twice: a decoder that reports the audio track type is
  answered on the second call with the video track type, not with the known result;
  and an init that fails is followed by a second real init request.
\<close>

theorem later_init_ignores_reported_type:
  "init_calls True [Inr kAudioTrack, Inr kAudioTrack] active_A_state =
     Returns [0, 1]
       (active_A_state\<lparr>mInit := True,
          promises := [Resolved kAudioTrack, Resolved kVideoTrack],
          trace := trace active_A_state @ [Request 20 ReqInit]\<rparr>) \<and>
   requests (trace (state_of (init_calls True [Inl INIT_ERROR, Inr kVideoTrack] active_A_state))) =
     [(20, ReqInit), (20, ReqInit)]"
  by (simp add: InitDecoder_round_def InitDecoder_def Ensure_def decoder_call_def emit_def
        CreateAndResolve_def init_settles_def on_init_resolved_def on_init_rejected_def
        settle_if_exists_def active_A_state_def created_state_def)

end
